theory Spec2Isabelle
  imports Complex_Main "HOL-Library.Multiset"
begin

section \<open>Numbers\<close>

text \<open>
  The program is TypeScript; every numeric value is a JavaScript \<open>number\<close>. The model
  takes a \<open>number\<close> to be a finite value and its arithmetic to be exact, that is a
  \<^typ>\<open>real\<close>: comparisons (\<open><\<close>, \<open>>=\<close>, \<open>===\<close>) are then the program's own; the rounding
  of double-precision arithmetic, \<open>NaN\<close> and the infinities are outside the model.
  \<open>Math.round\<close> rounds half up, \<open>%\<close> is the remainder that takes the sign of the
  dividend.
\<close>

definition Math_round :: "real \<Rightarrow> real" where
  "Math_round x = of_int \<lfloor>x + 1 / 2\<rfloor>"

definition js_trunc :: "real \<Rightarrow> int" where
  "js_trunc x = (if 0 \<le> x then \<lfloor>x\<rfloor> else \<lceil>x\<rceil>)"

definition js_rem :: "real \<Rightarrow> real \<Rightarrow> real" where
  "js_rem x y = x - y * of_int (js_trunc (x / y))"

text \<open>\<open>clamp(v, min, max) = Math.max(min, Math.min(max, v))\<close>\<close>

definition clamp :: "real \<Rightarrow> real \<Rightarrow> real \<Rightarrow> real" where
  "clamp v lo hi = max lo (min hi v)"

section \<open>Context adjustment of the blue channel\<close>

record weights =
  nightTime :: real
  lateNight :: real
  afterMeal :: real
  waterPer500ml :: real
  elapsedPerMin :: real

definition WEIGHTS :: weights where
  "WEIGHTS = \<lparr>nightTime = 1.2, lateNight = 1.1, afterMeal = 1.2,
     waterPer500ml = 1 / 500, elapsedPerMin = 1 / 60\<rparr>"

record context_inputs =
  hour :: real
  afterMealMin :: real
  waterMl :: real
  elapsedMin :: real

definition timeFactor :: "real \<Rightarrow> real" where
  "timeFactor hr =
     (let isNight = (hr \<ge> 0 \<and> hr \<le> 6); isLate = (hr \<ge> 22)
      in if isNight then nightTime WEIGHTS else if isLate then lateNight WEIGHTS else 1)"

definition mealFactor :: "real \<Rightarrow> real" where
  "mealFactor m = (if m < 60 then afterMeal WEIGHTS else 1)"

definition dilutionFactor :: "real \<Rightarrow> real \<Rightarrow> real" where
  "dilutionFactor w e = 1 + w * waterPer500ml WEIGHTS + e * elapsedPerMin WEIGHTS"

definition applyContextFactors :: "real \<Rightarrow> context_inputs \<Rightarrow> real" where
  "applyContextFactors b c =
     clamp (Math_round (b * timeFactor (hour c) * mealFactor (afterMealMin c)
                          * dilutionFactor (waterMl c) (elapsedMin c))) 0 255"

section \<open>RGB to HSV\<close>

record hsv =
  hsv_h :: real
  hsv_s :: real
  hsv_v :: real

definition rgbToHsvDeg :: "real \<Rightarrow> real \<Rightarrow> real \<Rightarrow> hsv" where
  "rgbToHsvDeg R G B =
     (let r = R / 255; g = G / 255; b = B / 255;
          mx = max (max r g) b; mn = min (min r g) b;
          d = mx - mn;
          h = (if d \<noteq> 0
               then (let h1 = (if mx = r then js_rem ((g - b) / d) 6
                               else if mx = g then (b - r) / d + 2
                               else (r - g) / d + 4);
                         h2 = h1 * 60
                     in if h2 < 0 then h2 + 360 else h2)
               else 0);
          s = (if mx = 0 then 0 else d / mx);
          v = mx
      in \<lparr>hsv_h = h, hsv_s = s * 100, hsv_v = v * 100\<rparr>)"

section \<open>Classification\<close>

text \<open>The glucose level is one of the numbers 0 (normal), 1 (caution), 2 (suspect),
  3 (danger).\<close>

definition classifyByHSV :: "real \<Rightarrow> real \<Rightarrow> nat" where
  "classifyByHSV h v =
     (if h \<ge> 160 then 0
      else if h \<ge> 60 \<and> h \<le> 140 then (if v \<ge> 75 then 1 else 2)
      else if h < 60 then 3
      else 2)"

text \<open>
  The labels of the pH result are nine fixed Korean string literals; each constructor
  stands for one of them, in the order of the source: "illuminance too low, cannot be
  measured", "saturation too low, cannot be measured", "pH 5 (orange)", "pH 6 (yellow)",
  "pH 7 (yellow-green)", "pH 8 (green)", "pH 9 (cyan)", "pH 5 (estimated)",
  "pH 9 (estimated)".
\<close>

datatype ph_label =
  TooDark | TooDesaturated
  | Orange5 | Yellow6 | YellowGreen7 | Green8 | Cyan9
  | Estimated5 | Estimated9

record ph_result =
  ph :: "int option"
  label :: ph_label

definition classifyPHByHSV :: "real \<Rightarrow> real \<Rightarrow> real \<Rightarrow> ph_result" where
  "classifyPHByHSV h s v =
     (if v < 25 then \<lparr>ph = None, label = TooDark\<rparr>
      else if s < 8 then \<lparr>ph = None, label = TooDesaturated\<rparr>
      else if h \<ge> 20 \<and> h < 45 then \<lparr>ph = Some 5, label = Orange5\<rparr>
      else if h \<ge> 45 \<and> h < 58 then \<lparr>ph = Some 6, label = Yellow6\<rparr>
      else if h \<ge> 58 \<and> h < 80 then \<lparr>ph = Some 7, label = YellowGreen7\<rparr>
      else if h \<ge> 80 \<and> h < 150 then \<lparr>ph = Some 8, label = Green8\<rparr>
      else if h \<ge> 150 \<and> h \<le> 190 then \<lparr>ph = Some 9, label = Cyan9\<rparr>
      else if h < 20 then \<lparr>ph = Some 5, label = Estimated5\<rparr>
      else \<lparr>ph = Some 9, label = Estimated9\<rparr>)"

section \<open>Sampling a colour from the pixel buffer\<close>

text \<open>
  \<open>analyzeImageForHSV\<close> draws the decoded image on a canvas of \<open>W = H = 300\<close> and reads
  its pixels: \<open>data\<close> holds four bytes (red, green, blue, alpha) for each pixel, row
  after row, so its length is \<open>4 * W * H\<close>. The model starts at \<open>data\<close> (decoding is the
  browser's) and keeps \<open>W\<close> and \<open>H\<close> as parameters; the program's instance is the last
  definition of this section. The region of interest is computed for a ratio within
  \<open>[0, 1]\<close>, as the constant \<open>ANALYZE_OPTIONS\<close> has it; for such a ratio and a buffer of
  that length every read of \<open>data\<close> is within the buffer.
\<close>

record analyze_options =
  roiRatio :: real
  minLuma :: real
  maxLuma :: real
  useBlueRatio :: bool


definition luma :: "nat \<Rightarrow> nat \<Rightarrow> nat \<Rightarrow> real" where
  "luma r g b = 0.2126 * real r + 0.7152 * real g + 0.0722 * real b"

text \<open>The four accumulators \<open>rSum\<close>, \<open>gSum\<close>, \<open>bSum\<close> and \<open>n\<close> (here \<open>cnt\<close>).\<close>

record tally =
  rSum :: nat
  gSum :: nat
  bSum :: nat
  cnt :: nat

definition no_tally :: tally where
  "no_tally = \<lparr>rSum = 0, gSum = 0, bSum = 0, cnt = 0\<rparr>"

text \<open>The body of both loops: the pixel at byte offset \<open>i\<close> is skipped when its luma is
  outside \<open>[lo, hi]\<close> and added to the accumulators otherwise.\<close>

definition accumulate :: "real \<Rightarrow> real \<Rightarrow> nat list \<Rightarrow> nat \<Rightarrow> tally \<Rightarrow> tally" where
  "accumulate lo hi data i a =
     (let r = data ! i; g = data ! (i + 1); b = data ! (i + 2);
          l = luma r g b
      in if l < lo \<or> l > hi then a
         else \<lparr>rSum = rSum a + r, gSum = gSum a + g, bSum = bSum a + b, cnt = cnt a + 1\<rparr>)"

definition roi_scan :: "nat \<Rightarrow> nat \<Rightarrow> analyze_options \<Rightarrow> nat list \<Rightarrow> tally" where
  "roi_scan W H options data =
     (let roiW = nat \<lfloor>real W * roiRatio options\<rfloor>;
          roiH = nat \<lfloor>real H * roiRatio options\<rfloor>;
          offX = (W - roiW) div 2;
          offY = (H - roiH) div 2
      in fold (\<lambda>y. fold (\<lambda>x. accumulate (minLuma options) (maxLuma options) data
                                 ((y * W + x) * 4))
                        [offX ..< offX + roiW])
           [offY ..< offY + roiH] no_tally)"

text \<open>\<open>for (let i = 0; i < data.length; i += 4)\<close> with the fixed bounds 10 and 245.\<close>

definition full_scan :: "nat list \<Rightarrow> tally" where
  "full_scan data =
     fold (accumulate 10 245 data) (map (\<lambda>k. 4 * k) [0 ..< (length data + 3) div 4]) no_tally"

definition sample_sums :: "nat \<Rightarrow> nat \<Rightarrow> analyze_options \<Rightarrow> nat list \<Rightarrow> tally" where
  "sample_sums W H options data =
     (let a = roi_scan W H options data in if cnt a < 50 then full_scan data else a)"

text \<open>\<open>n ? Math.round(sum / n) : 0\<close>\<close>

definition channel_mean :: "nat \<Rightarrow> nat \<Rightarrow> real" where
  "channel_mean acc k = (if k \<noteq> 0 then Math_round (real acc / real k) else 0)"

definition sample_rgb :: "tally \<Rightarrow> real \<times> real \<times> real" where
  "sample_rgb a =
     (channel_mean (rSum a) (cnt a), channel_mean (gSum a) (cnt a), channel_mean (bSum a) (cnt a))"

text \<open>The result \<open>{h, s, v, b: B}\<close> as the pair of the HSV record and the blue mean.\<close>

definition analyze_pixels :: "nat \<Rightarrow> nat \<Rightarrow> analyze_options \<Rightarrow> nat list \<Rightarrow> hsv \<times> real" where
  "analyze_pixels W H options data =
     (case sample_rgb (sample_sums W H options data) of
        (R, G, B) \<Rightarrow> (rgbToHsvDeg R G B, B))"

definition analyzeImageForHSV :: "analyze_options \<Rightarrow> nat list \<Rightarrow> hsv \<times> real" where
  "analyzeImageForHSV options data = analyze_pixels 300 300 options data"



definition frame_offsets :: "nat \<Rightarrow> nat \<Rightarrow> nat list" where
  "frame_offsets W H = map (\<lambda>k. 4 * k) [0 ..< W * H]"

definition roi_offsets :: "nat \<Rightarrow> nat \<Rightarrow> real \<Rightarrow> nat list" where
  "roi_offsets W H ratio =
     (let roiW = nat \<lfloor>real W * ratio\<rfloor>; roiH = nat \<lfloor>real H * ratio\<rfloor>;
          offX = (W - roiW) div 2; offY = (H - roiH) div 2
      in concat (map (\<lambda>y. map (\<lambda>x. (y * W + x) * 4) [offX ..< offX + roiW])
                   [offY ..< offY + roiH]))"



section \<open>The history log\<close>

text \<open>
  History entries are untyped objects (\<open>any\<close>). A value is \<open>undefined\<close>, \<open>null\<close>, a number
  or a string; an object is the finite map of its own properties, and reading a property
  that is absent gives \<open>undefined\<close>. The spread \<open>{ ...a, ...b }\<close> keeps the properties of
  \<open>a\<close> and overwrites or adds those of \<open>b\<close>.
\<close>

datatype jsval = JUndefined | JNull | JNum real | JStr string

type_synonym obj = "string \<rightharpoonup> jsval"

definition get_prop :: "obj \<Rightarrow> string \<Rightarrow> jsval" where
  "get_prop e k = (case e k of None \<Rightarrow> JUndefined | Some v \<Rightarrow> v)"

definition spread :: "obj \<Rightarrow> obj \<Rightarrow> obj" where
  "spread a b = a ++ b"

text \<open>\<open>Array.prototype.findIndex\<close>: the first index whose element satisfies the test,
  or \<open>-1\<close>.\<close>

fun findIndex :: "('a \<Rightarrow> bool) \<Rightarrow> 'a list \<Rightarrow> int" where
  "findIndex P [] = - 1"
| "findIndex P (x # xs) =
     (if P x then 0 else (let i = findIndex P xs in if i < 0 then - 1 else i + 1))"

text \<open>
  \<open>Array.prototype.sort\<close> with a comparator. The comparator returns a number, \<open>None\<close>
  standing for \<open>NaN\<close>, which the sort takes as \<open>+0\<close>. The sort is stable, so for a
  comparator that orders its arguments consistently the result is determined, and the
  model computes it by inserting each element before the first one it does not sort
  after. (For a comparator that is not consistent, as one that returns \<open>NaN\<close> on some
  pairs only, the language leaves the order to the engine; the insertion below is then
  one admissible outcome.)
\<close>

definition sorts_after :: "('a \<Rightarrow> 'a \<Rightarrow> int option) \<Rightarrow> 'a \<Rightarrow> 'a \<Rightarrow> bool" where
  "sorts_after cmp a b = (case cmp a b of None \<Rightarrow> False | Some c \<Rightarrow> 0 < c)"

fun sort_insert :: "('a \<Rightarrow> 'a \<Rightarrow> int option) \<Rightarrow> 'a \<Rightarrow> 'a list \<Rightarrow> 'a list" where
  "sort_insert cmp x [] = [x]"
| "sort_insert cmp x (y # ys) =
     (if sorts_after cmp x y then y # sort_insert cmp x ys else x # y # ys)"

definition Array_sort :: "('a \<Rightarrow> 'a \<Rightarrow> int option) \<Rightarrow> 'a list \<Rightarrow> 'a list" where
  "Array_sort cmp xs = foldr (sort_insert cmp) xs []"

text \<open>
  \<open>new Date(x).getTime()\<close> is the platform's: it is the parameter \<open>getTime\<close> of
  everything below, from a value to the milliseconds since the epoch, \<open>None\<close> for
  \<open>NaN\<close> (an invalid date). The comparator of the program is
  \<open>new Date(a.timestamp).getTime() - new Date(b.timestamp).getTime()\<close>.
\<close>

definition byTimestamp :: "(jsval \<Rightarrow> int option) \<Rightarrow> obj \<Rightarrow> obj \<Rightarrow> int option" where
  "byTimestamp getTime a b =
     (case (getTime (get_prop a ''timestamp''), getTime (get_prop b ''timestamp'')) of
        (Some x, Some y) \<Rightarrow> Some (x - y)
      | _ \<Rightarrow> None)"

text \<open>
  \<open>upsertHistoryEntry\<close> first changes the array it is given (\<open>upsert_in_place\<close>: the
  callers pass a fresh copy) and then returns a sorted copy of it.
\<close>

definition upsert_in_place :: "obj list \<Rightarrow> obj \<Rightarrow> obj list" where
  "upsert_in_place list payload =
     (let idx = findIndex (\<lambda>e. get_prop e ''date'' = get_prop payload ''date'') list
      in if idx \<ge> 0 then list[nat idx := spread (list ! nat idx) payload]
         else list @ [payload])"

definition upsertHistoryEntry :: "(jsval \<Rightarrow> int option) \<Rightarrow> obj list \<Rightarrow> obj \<Rightarrow> obj list" where
  "upsertHistoryEntry getTime list payload =
     Array_sort (byTimestamp getTime) (upsert_in_place list payload)"

text \<open>The log after a sequence of upserts that starts from the empty log.\<close>

definition upsert_all :: "(jsval \<Rightarrow> int option) \<Rightarrow> obj list \<Rightarrow> obj list" where
  "upsert_all getTime payloads = foldl (upsertHistoryEntry getTime) [] payloads"

section \<open>Calendar and statistics views\<close>















text \<open>
  For closed examples: the instants of the three timestamps used below, as every
  platform parses them (ISO 8601, UTC), and \<open>NaN\<close> for \<open>undefined\<close>.
\<close>

definition example_getTime :: "jsval \<Rightarrow> int option" where
  "example_getTime v =
     (if v = JStr ''2025-01-01T09:00:00.000Z'' then Some 1735722000000
      else if v = JStr ''2025-01-01T21:30:00.000Z'' then Some 1735767000000
      else if v = JStr ''2025-01-02T08:15:00.000Z'' then Some 1735805700000
      else None)"

text \<open>
  For stating order: whether the timestamp of an entry is a valid date, and its instant
  (0 stands in when it is not valid; the statements below use it for valid ones only).
\<close>

definition has_instant :: "(jsval \<Rightarrow> int option) \<Rightarrow> obj \<Rightarrow> bool" where
  "has_instant getTime e = (getTime (get_prop e ''timestamp'') \<noteq> None)"

definition instant :: "(jsval \<Rightarrow> int option) \<Rightarrow> obj \<Rightarrow> int" where
  "instant getTime e = (case getTime (get_prop e ''timestamp'') of None \<Rightarrow> 0 | Some t \<Rightarrow> t)"

text \<open>Example payloads, as \<open>confirmPendingResult\<close> and \<open>confirmPHResult\<close> build them
  (the diagnosis text left out).\<close>

definition glucose_jan1 :: obj where
  "glucose_jan1 = [''timestamp'' \<mapsto> JStr ''2025-01-01T09:00:00.000Z'',
     ''date'' \<mapsto> JStr ''2025-01-01'', ''level'' \<mapsto> JNum 1]"

definition ph_jan1 :: obj where
  "ph_jan1 = [''timestamp'' \<mapsto> JStr ''2025-01-01T21:30:00.000Z'',
     ''date'' \<mapsto> JStr ''2025-01-01'', ''ph'' \<mapsto> JNum 7]"

definition glucose_jan2 :: obj where
  "glucose_jan2 = [''timestamp'' \<mapsto> JStr ''2025-01-02T08:15:00.000Z'',
     ''date'' \<mapsto> JStr ''2025-01-02'', ''level'' \<mapsto> JNum 2]"

text \<open>A payload dated 2 January that carries the instant of \<open>ph_jan1\<close>.\<close>

definition glucose_jan2_same_instant :: obj where
  "glucose_jan2_same_instant = [''timestamp'' \<mapsto> JStr ''2025-01-01T21:30:00.000Z'',
     ''date'' \<mapsto> JStr ''2025-01-02'', ''level'' \<mapsto> JNum 0]"




section \<open>Properties of the numeric stages\<close>

subsection \<open>Rounding and clamping\<close>

lemma Math_round_mono: "x \<le> y \<Longrightarrow> Math_round x \<le> Math_round y"
  unfolding Math_round_def by (simp add: floor_mono)



lemma clamp_mono: "x \<le> y \<Longrightarrow> clamp x lo hi \<le> clamp y lo hi"
  by (simp add: clamp_def max_def min_def)

lemma clamp_range: "lo \<le> hi \<Longrightarrow> lo \<le> clamp x lo hi \<and> clamp x lo hi \<le> hi"
  by (simp add: clamp_def max_def min_def)

lemma timeFactor_pos: "0 < timeFactor hr"
  by (simp add: timeFactor_def WEIGHTS_def Let_def)

lemma mealFactor_pos: "0 < mealFactor m"
  by (simp add: mealFactor_def WEIGHTS_def)

lemma dilutionFactor_mono:
  "w \<le> w' \<Longrightarrow> e \<le> e' \<Longrightarrow> dilutionFactor w e \<le> dilutionFactor w' e'"
  by (simp add: dilutionFactor_def WEIGHTS_def)

lemma applyContextFactors_mono_dilution:
  assumes "0 \<le> b" "w \<le> w'" "e \<le> e'"
  shows "applyContextFactors b \<lparr>hour = hr, afterMealMin = m, waterMl = w, elapsedMin = e\<rparr>
       \<le> applyContextFactors b \<lparr>hour = hr, afterMealMin = m, waterMl = w', elapsedMin = e'\<rparr>"
proof -
  have "0 \<le> b * timeFactor hr * mealFactor m"
    using assms(1) timeFactor_pos [of hr] mealFactor_pos [of m] by simp
  then have "b * timeFactor hr * mealFactor m * dilutionFactor w e
      \<le> b * timeFactor hr * mealFactor m * dilutionFactor w' e'"
    using dilutionFactor_mono [OF assms(2,3)] by (rule mult_left_mono [rotated])
  then show ?thesis
    unfolding applyContextFactors_def by (simp add: clamp_mono Math_round_mono)
qed

subsection \<open>The glucose classifier\<close>

text \<open>
  C1. The glucose classifier follows the ordered rules: at \<open>h \<ge> 160\<close> level 0; else at
  \<open>60 \<le> h \<le> 140\<close> level 1 when \<open>v \<ge> 75\<close> and level 2 otherwise; else at \<open>h < 60\<close> level 3;
  else (\<open>140 < h < 160\<close>) level 2. It always returns one of the four levels, and at the
  boundaries: \<open>h = 160\<close> gives level 0, \<open>h = 140.01\<close> and \<open>h = 159.99\<close> give level 2,
  \<open>h = 60\<close> takes the branch that depends on \<open>v\<close>, \<open>h = 59.99\<close> gives level 3.
\<close>

theorem classifyByHSV_rules:
  "(160 \<le> h \<longrightarrow> classifyByHSV h v = 0)
   \<and> (60 \<le> h \<and> h \<le> 140 \<and> 75 \<le> v \<longrightarrow> classifyByHSV h v = 1)
   \<and> (60 \<le> h \<and> h \<le> 140 \<and> v < 75 \<longrightarrow> classifyByHSV h v = 2)
   \<and> (h < 60 \<longrightarrow> classifyByHSV h v = 3)
   \<and> (140 < h \<and> h < 160 \<longrightarrow> classifyByHSV h v = 2)
   \<and> classifyByHSV h v \<in> {0, 1, 2, 3}
   \<and> classifyByHSV 160 v = 0
   \<and> classifyByHSV 140.01 v = 2 \<and> classifyByHSV 159.99 v = 2
   \<and> classifyByHSV 60 v = (if 75 \<le> v then 1 else 2)
   \<and> classifyByHSV 59.99 v = 3"
  by (simp add: classifyByHSV_def)

theorem classifyByHSV_rules_witness:
  "classifyByHSV 200 50 = 0 \<and> classifyByHSV 100 80 = 1 \<and> classifyByHSV 100 74 = 2
   \<and> classifyByHSV 30 90 = 3 \<and> classifyByHSV 150 90 = 2"
  using classifyByHSV_rules [where h = 200 and v = 50]
    classifyByHSV_rules [where h = 100 and v = 80]
    classifyByHSV_rules [where h = 100 and v = 74]
    classifyByHSV_rules [where h = 30 and v = 90]
    classifyByHSV_rules [where h = 150 and v = 90]
  by simp

subsection \<open>The pH classifier\<close>

text \<open>
  C2. The pH classifier always returns a result record. Its guards come first and in
  order: \<open>v < 25\<close> gives no pH with the "too dark" label, then \<open>s < 8\<close> gives no pH with
  the "too desaturated" label. Past the guards the pH is present and follows the hue
  bands \<open>[20,45)\<close> 5, \<open>[45,58)\<close> 6, \<open>[58,80)\<close> 7, \<open>[80,150)\<close> 8, \<open>[150,190]\<close> 9, with
  \<open>h < 20\<close> estimated as 5 and \<open>h > 190\<close> estimated as 9. So the pH is absent exactly
  when \<open>v < 25\<close> or \<open>s < 8\<close>; \<open>v = 24.9\<close> gives none whatever \<open>h\<close> and \<open>s\<close> are,
  \<open>(v, s) = (25, 7.9)\<close> gives none, \<open>h = 44.9\<close> gives 5 and \<open>h = 45\<close> gives 6.
\<close>

theorem classifyPHByHSV_guards_and_bands:
  "(v < 25 \<longrightarrow> classifyPHByHSV h s v = \<lparr>ph = None, label = TooDark\<rparr>)
   \<and> (25 \<le> v \<and> s < 8 \<longrightarrow> classifyPHByHSV h s v = \<lparr>ph = None, label = TooDesaturated\<rparr>)
   \<and> (25 \<le> v \<and> 8 \<le> s \<longrightarrow>
        (20 \<le> h \<and> h < 45 \<longrightarrow> ph (classifyPHByHSV h s v) = Some 5)
      \<and> (45 \<le> h \<and> h < 58 \<longrightarrow> ph (classifyPHByHSV h s v) = Some 6)
      \<and> (58 \<le> h \<and> h < 80 \<longrightarrow> ph (classifyPHByHSV h s v) = Some 7)
      \<and> (80 \<le> h \<and> h < 150 \<longrightarrow> ph (classifyPHByHSV h s v) = Some 8)
      \<and> (150 \<le> h \<and> h \<le> 190 \<longrightarrow> ph (classifyPHByHSV h s v) = Some 9)
      \<and> (h < 20 \<longrightarrow> classifyPHByHSV h s v = \<lparr>ph = Some 5, label = Estimated5\<rparr>)
      \<and> (190 < h \<longrightarrow> classifyPHByHSV h s v = \<lparr>ph = Some 9, label = Estimated9\<rparr>)
      \<and> ph (classifyPHByHSV 44.9 s v) = Some 5
      \<and> ph (classifyPHByHSV 45 s v) = Some 6)
   \<and> (ph (classifyPHByHSV h s v) = None \<longleftrightarrow> v < 25 \<or> s < 8)
   \<and> ph (classifyPHByHSV h s 24.9) = None
   \<and> ph (classifyPHByHSV h 7.9 25) = None"
  by (simp add: classifyPHByHSV_def)

theorem classifyPHByHSV_guards_and_bands_witness:
  "classifyPHByHSV 100 50 10 = \<lparr>ph = None, label = TooDark\<rparr>
   \<and> classifyPHByHSV 100 5 50 = \<lparr>ph = None, label = TooDesaturated\<rparr>
   \<and> ph (classifyPHByHSV 30 50 50) = Some 5
   \<and> ph (classifyPHByHSV 50 50 50) = Some 6
   \<and> ph (classifyPHByHSV 70 50 50) = Some 7
   \<and> ph (classifyPHByHSV 100 50 50) = Some 8
   \<and> ph (classifyPHByHSV 190 50 50) = Some 9
   \<and> classifyPHByHSV 10 50 50 = \<lparr>ph = Some 5, label = Estimated5\<rparr>
   \<and> classifyPHByHSV 300 50 50 = \<lparr>ph = Some 9, label = Estimated9\<rparr>"
  using classifyPHByHSV_guards_and_bands [where h = 100 and s = 50 and v = 10]
    classifyPHByHSV_guards_and_bands [where h = 100 and s = 5 and v = 50]
    classifyPHByHSV_guards_and_bands [where h = 30 and s = 50 and v = 50]
    classifyPHByHSV_guards_and_bands [where h = 50 and s = 50 and v = 50]
    classifyPHByHSV_guards_and_bands [where h = 70 and s = 50 and v = 50]
    classifyPHByHSV_guards_and_bands [where h = 100 and s = 50 and v = 50]
    classifyPHByHSV_guards_and_bands [where h = 190 and s = 50 and v = 50]
    classifyPHByHSV_guards_and_bands [where h = 10 and s = 50 and v = 50]
    classifyPHByHSV_guards_and_bands [where h = 300 and s = 50 and v = 50]
  by simp

subsection \<open>The context adjuster\<close>


text \<open>
  C6. With \<open>b\<close> in \<open>[0,255]\<close>, the hour and the minutes after the meal fixed, and water
  and elapsed minutes not negative, the adjusted value does not decrease when the water
  grows, does not decrease when the elapsed minutes grow, and lies in \<open>[0,255]\<close>.
\<close>

theorem applyContextFactors_monotone_bounded:
  assumes "0 \<le> b" "b \<le> 255" "0 \<le> w" "w \<le> w'" "0 \<le> e" "e \<le> e'"
  shows "applyContextFactors b \<lparr>hour = hr, afterMealMin = m, waterMl = w, elapsedMin = e\<rparr>
       \<le> applyContextFactors b \<lparr>hour = hr, afterMealMin = m, waterMl = w', elapsedMin = e\<rparr>
    \<and> applyContextFactors b \<lparr>hour = hr, afterMealMin = m, waterMl = w, elapsedMin = e\<rparr>
       \<le> applyContextFactors b \<lparr>hour = hr, afterMealMin = m, waterMl = w, elapsedMin = e'\<rparr>
    \<and> 0 \<le> applyContextFactors b \<lparr>hour = hr, afterMealMin = m, waterMl = w, elapsedMin = e\<rparr>
    \<and> applyContextFactors b \<lparr>hour = hr, afterMealMin = m, waterMl = w, elapsedMin = e\<rparr> \<le> 255"
  using assms applyContextFactors_mono_dilution [of b w w' e e hr m]
    applyContextFactors_mono_dilution [of b w w e e' hr m] clamp_range [of 0 255]
  by (simp add: applyContextFactors_def)

theorem applyContextFactors_monotone_bounded_witness:
  "applyContextFactors 100 \<lparr>hour = 23, afterMealMin = 90, waterMl = 0, elapsedMin = 0\<rparr> = 110
   \<and> applyContextFactors 100 \<lparr>hour = 23, afterMealMin = 90, waterMl = 100, elapsedMin = 0\<rparr> = 132
   \<and> applyContextFactors 100 \<lparr>hour = 23, afterMealMin = 90, waterMl = 0, elapsedMin = 15\<rparr> = 138
   \<and> applyContextFactors 100 \<lparr>hour = 23, afterMealMin = 90, waterMl = 0, elapsedMin = 0\<rparr>
       \<le> applyContextFactors 100 \<lparr>hour = 23, afterMealMin = 90, waterMl = 100, elapsedMin = 0\<rparr>
   \<and> applyContextFactors 100 \<lparr>hour = 23, afterMealMin = 90, waterMl = 0, elapsedMin = 0\<rparr>
       \<le> applyContextFactors 100 \<lparr>hour = 23, afterMealMin = 90, waterMl = 0, elapsedMin = 15\<rparr>"
  using applyContextFactors_monotone_bounded
      [where b = 100 and w = 0 and w' = 100 and e = 0 and e' = 15 and hr = 23 and m = 90]
  by (simp add: applyContextFactors_def timeFactor_def mealFactor_def dilutionFactor_def
      WEIGHTS_def Let_def Math_round_def clamp_def)

subsection \<open>The colour conversion\<close>

text \<open>
  C8. The uniform sample \<open>(R, G, B) = (50, 200, 50)\<close> converts to hue 120 degrees,
  saturation 75 percent and value \<open>200 / 255\<close>, about 78 percent; the glucose classifier
  then gives level 1 (caution, as \<open>60 \<le> 120 \<le> 140\<close> and \<open>v \<ge> 75\<close>); the guards of the pH
  classifier pass and hue 120 lies in the band \<open>[80,150)\<close>, so the pH is 8.
\<close>

theorem green_sample_end_to_end:
  "rgbToHsvDeg 50 200 50 = \<lparr>hsv_h = 120, hsv_s = 75, hsv_v = 200 / 255 * 100\<rparr>
   \<and> Math_round (hsv_v (rgbToHsvDeg 50 200 50)) = 78
   \<and> classifyByHSV (hsv_h (rgbToHsvDeg 50 200 50)) (hsv_v (rgbToHsvDeg 50 200 50)) = 1
   \<and> 25 \<le> hsv_v (rgbToHsvDeg 50 200 50) \<and> 8 \<le> hsv_s (rgbToHsvDeg 50 200 50)
   \<and> classifyPHByHSV (hsv_h (rgbToHsvDeg 50 200 50)) (hsv_s (rgbToHsvDeg 50 200 50))
        (hsv_v (rgbToHsvDeg 50 200 50)) = \<lparr>ph = Some 8, label = Green8\<rparr>"
proof -
  have conv: "rgbToHsvDeg 50 200 50 = \<lparr>hsv_h = 120, hsv_s = 75, hsv_v = 200 / 255 * 100\<rparr>"
    by (simp add: rgbToHsvDeg_def Let_def)
  show ?thesis
    unfolding conv by (simp add: classifyByHSV_def classifyPHByHSV_def Math_round_def)
qed

text \<open>
  C9. An achromatic input \<open>R = G = B\<close> converts to saturation 0 and hue 0 whatever the
  value is; the all-zero sample converts to value 0 as well. The conversion is a total
  function: this is a result, not an error.
\<close>

theorem rgbToHsvDeg_achromatic:
  "rgbToHsvDeg x x x = \<lparr>hsv_h = 0, hsv_s = 0, hsv_v = x / 255 * 100\<rparr>
   \<and> rgbToHsvDeg 0 0 0 = \<lparr>hsv_h = 0, hsv_s = 0, hsv_v = 0\<rparr>"
  by (simp add: rgbToHsvDeg_def Let_def)

section \<open>Properties of the history log\<close>

subsection \<open>Finding, sorting, spreading\<close>

lemma findIndex_ge: "- 1 \<le> findIndex P xs"
  by (induction xs) (auto simp: Let_def)

lemma findIndex_neg_iff: "findIndex P xs < 0 \<longleftrightarrow> (\<forall>x\<in>set xs. \<not> P x)"
  using findIndex_ge [of P] by (induction xs) (auto simp: Let_def)

lemma findIndex_first:
  "i < length xs \<Longrightarrow> P (xs ! i) \<Longrightarrow> (\<forall>j<i. \<not> P (xs ! j)) \<Longrightarrow> findIndex P xs = int i"
proof (induction xs arbitrary: i)
  case Nil
  then show ?case by simp
next
  case (Cons x xs)
  show ?case
  proof (cases i)
    case 0
    with Cons.prems show ?thesis by simp
  next
    case (Suc k)
    with Cons.prems have "\<not> P x" by auto
    moreover have "findIndex P xs = int k"
      using Cons.prems Suc by (intro Cons.IH) auto
    ultimately show ?thesis using Suc by (simp add: Let_def)
  qed
qed

lemma findIndex_none: "(\<forall>x\<in>set xs. \<not> P x) \<Longrightarrow> findIndex P xs = - 1"
  using findIndex_neg_iff [of P xs] findIndex_ge [of P xs] by linarith

lemma mset_sort_insert: "mset (sort_insert cmp x xs) = add_mset x (mset xs)"
  by (induction xs) auto

lemma mset_Array_sort: "mset (Array_sort cmp xs) = mset xs"
  unfolding Array_sort_def by (induction xs) (auto simp: mset_sort_insert)

lemma length_Array_sort: "length (Array_sort cmp xs) = length xs"
  using mset_Array_sort [of cmp xs] by (metis size_mset)

lemma set_Array_sort: "set (Array_sort cmp xs) = set xs"
  using mset_Array_sort [of cmp xs] by (metis set_mset_mset)

lemma spread_apply: "spread a b k = (case b k of None \<Rightarrow> a k | Some v \<Rightarrow> Some v)"
  by (simp add: spread_def map_add_def)

lemma sorts_after_byTimestamp:
  "has_instant getTime a \<Longrightarrow> has_instant getTime b \<Longrightarrow>
   sorts_after (byTimestamp getTime) a b \<longleftrightarrow> \<not> instant getTime a \<le> instant getTime b"
  by (auto simp: sorts_after_def byTimestamp_def has_instant_def instant_def)

lemma sort_insert_byTimestamp:
  "has_instant getTime x \<Longrightarrow> \<forall>y\<in>set ys. has_instant getTime y \<Longrightarrow>
   sort_insert (byTimestamp getTime) x ys = insort_key (instant getTime) x ys"
  by (induction ys) (simp_all add: sorts_after_byTimestamp)

lemma Array_sort_byTimestamp:
  "\<forall>x\<in>set xs. has_instant getTime x \<Longrightarrow>
   Array_sort (byTimestamp getTime) xs = sort_key (instant getTime) xs"
proof (induction xs)
  case Nil
  then show ?case by (simp add: Array_sort_def)
next
  case (Cons x xs)
  then have "Array_sort (byTimestamp getTime) xs = sort_key (instant getTime) xs" by simp
  moreover have "\<forall>y\<in>set (sort_key (instant getTime) xs). has_instant getTime y"
    using Cons.prems by simp
  ultimately show ?case
    using Cons.prems sort_insert_byTimestamp [of getTime x "sort_key (instant getTime) xs"]
    by (simp add: Array_sort_def)
qed

lemma get_prop_spread:
  "get_prop (spread a p) k = (if p k = None then get_prop a k else get_prop p k)"
  by (auto simp: get_prop_def spread_apply split: option.splits)

lemma get_prop_spread_same:
  "get_prop a k = get_prop p k \<Longrightarrow> get_prop (spread a p) k = get_prop p k"
  by (simp add: get_prop_spread)

lemma findIndex_found:
  "0 \<le> findIndex P xs \<Longrightarrow> nat (findIndex P xs) < length xs \<and> P (xs ! nat (findIndex P xs))"
proof (induction xs)
  case Nil
  then show ?case by simp
next
  case (Cons x xs)
  show ?case
  proof (cases "P x")
    case True
    then show ?thesis by simp
  next
    case False
    with Cons.prems have nn: "0 \<le> findIndex P xs" by (simp add: Let_def split: if_splits)
    with Cons.IH have "nat (findIndex P xs) < length xs \<and> P (xs ! nat (findIndex P xs))" by simp
    with False nn show ?thesis by (simp add: Let_def nat_add_distrib)
  qed
qed

lemma dates_upsert_in_place:
  "map (\<lambda>e. get_prop e ''date'') (upsert_in_place list payload) =
     (if \<exists>e\<in>set list. get_prop e ''date'' = get_prop payload ''date''
      then map (\<lambda>e. get_prop e ''date'') list
      else map (\<lambda>e. get_prop e ''date'') list @ [get_prop payload ''date''])"
proof (cases "\<exists>e\<in>set list. get_prop e ''date'' = get_prop payload ''date''")
  case True
  let ?P = "\<lambda>e. get_prop e ''date'' = get_prop payload ''date''"
  from True have ge: "0 \<le> findIndex ?P list"
    using findIndex_neg_iff [of ?P list] by fastforce
  from findIndex_found [OF ge] have lt: "nat (findIndex ?P list) < length list"
    and hit: "?P (list ! nat (findIndex ?P list))" by simp_all
  have "map (\<lambda>e. get_prop e ''date'') (list[nat (findIndex ?P list) := spread (list ! nat (findIndex ?P list)) payload])
      = (map (\<lambda>e. get_prop e ''date'') list)[nat (findIndex ?P list) := get_prop payload ''date'']"
    by (simp add: map_update get_prop_spread_same [OF hit])
  also have "\<dots> = (map (\<lambda>e. get_prop e ''date'') list)
      [nat (findIndex ?P list) := map (\<lambda>e. get_prop e ''date'') list ! nat (findIndex ?P list)]"
    using hit lt by simp
  also have "\<dots> = map (\<lambda>e. get_prop e ''date'') list"
    by (rule list_update_id)
  finally show ?thesis using True ge by (simp add: upsert_in_place_def Let_def)
next
  case False
  then have "findIndex (\<lambda>e. get_prop e ''date'' = get_prop payload ''date'') list = - 1"
    by (intro findIndex_none) auto
  with False show ?thesis by (simp add: upsert_in_place_def Let_def)
qed

lemma mset_map_Array_sort: "mset (map f (Array_sort cmp xs)) = mset (map f xs)"
  by (simp add: mset_Array_sort)

lemma distinct_map_Array_sort: "distinct (map f (Array_sort cmp xs)) = distinct (map f xs)"
  using mset_map_Array_sort [of f cmp xs] by (rule mset_eq_imp_distinct_iff)

lemma distinct_dates_upsert:
  assumes "distinct (map (\<lambda>e. get_prop e ''date'') list)"
  shows "distinct (map (\<lambda>e. get_prop e ''date'') (upsertHistoryEntry getTime list payload))"
  using assms unfolding upsertHistoryEntry_def distinct_map_Array_sort dates_upsert_in_place
  by auto

lemma length_upsert:
  "length (upsertHistoryEntry getTime list payload) =
     (if \<exists>e\<in>set list. get_prop e ''date'' = get_prop payload ''date''
      then length list else length list + 1)"
proof -
  have "length (upsertHistoryEntry getTime list payload)
      = length (map (\<lambda>e. get_prop e ''date'') (upsert_in_place list payload))"
    by (simp add: upsertHistoryEntry_def length_Array_sort)
  then show ?thesis unfolding dates_upsert_in_place by simp
qed

lemma has_instant_spread:
  "has_instant getTime a \<Longrightarrow> has_instant getTime p \<Longrightarrow> has_instant getTime (spread a p)"
  by (simp add: has_instant_def get_prop_spread)

lemma has_instant_upsert_in_place:
  assumes "\<forall>e\<in>set list. has_instant getTime e" "has_instant getTime payload"
  shows "\<forall>e\<in>set (upsert_in_place list payload). has_instant getTime e"
proof (cases "0 \<le> findIndex (\<lambda>e. get_prop e ''date'' = get_prop payload ''date'') list")
  case True
  let ?n = "nat (findIndex (\<lambda>e. get_prop e ''date'' = get_prop payload ''date'') list)"
  from findIndex_found [OF True] have "list ! ?n \<in> set list" by simp
  with assms have "has_instant getTime (spread (list ! ?n) payload)"
    by (simp add: has_instant_spread)
  moreover have "set (upsert_in_place list payload) \<subseteq> insert (spread (list ! ?n) payload) (set list)"
    using True by (simp add: upsert_in_place_def Let_def set_update_subset_insert)
  ultimately show ?thesis using assms(1) by auto
next
  case False
  with assms show ?thesis by (simp add: upsert_in_place_def Let_def)
qed

lemma has_instant_upsert:
  assumes "\<forall>e\<in>set list. has_instant getTime e" "has_instant getTime payload"
  shows "\<forall>e\<in>set (upsertHistoryEntry getTime list payload). has_instant getTime e"
  using has_instant_upsert_in_place [OF assms] by (simp add: upsertHistoryEntry_def set_Array_sort)

lemma sorted_upsert:
  assumes "\<forall>e\<in>set list. has_instant getTime e" "has_instant getTime payload"
  shows "sorted (map (instant getTime) (upsertHistoryEntry getTime list payload))"
  using has_instant_upsert_in_place [OF assms]
  by (simp add: upsertHistoryEntry_def Array_sort_byTimestamp)

lemma upsert_all_snoc:
  "upsert_all getTime (ps @ [p]) = upsertHistoryEntry getTime (upsert_all getTime ps) p"
  by (simp add: upsert_all_def)

lemma distinct_dates_upsert_all:
  "distinct (map (\<lambda>e. get_prop e ''date'') (upsert_all getTime ps))"
proof (induction ps rule: rev_induct)
  case Nil
  then show ?case by (simp add: upsert_all_def)
next
  case (snoc p ps)
  then show ?case by (simp add: upsert_all_snoc distinct_dates_upsert)
qed

lemma has_instant_upsert_all:
  "\<forall>p\<in>set ps. has_instant getTime p \<Longrightarrow> \<forall>e\<in>set (upsert_all getTime ps). has_instant getTime e"
proof (induction ps rule: rev_induct)
  case Nil
  then show ?case by (simp add: upsert_all_def)
next
  case (snoc p ps)
  then show ?case using has_instant_upsert [of "upsert_all getTime ps" getTime p]
    by (simp add: upsert_all_snoc)
qed

lemma sorted_upsert_all:
  assumes "\<forall>p\<in>set ps. has_instant getTime p"
  shows "sorted (map (instant getTime) (upsert_all getTime ps))"
proof (cases ps rule: rev_cases)
  case Nil
  then show ?thesis by (simp add: upsert_all_def)
next
  case (snoc qs q)
  with assms have "\<forall>e\<in>set (upsert_all getTime qs). has_instant getTime e" "has_instant getTime q"
    using has_instant_upsert_all [of qs getTime] by simp_all
  then show ?thesis unfolding snoc upsert_all_snoc by (rule sorted_upsert)
qed

subsection \<open>Upsert\<close>

text \<open>
  C3. Upsert is a shallow merge keyed by date. When a record with the date of the
  payload exists (the first such, at index \<open>i\<close>), the log after the upsert holds the
  same records but that one, which is replaced by its merge with the payload: every key
  present in the payload takes the payload's value, \<open>null\<close> included, every other key
  keeps the record's value; the length is unchanged. When no record has that date, the
  payload is added as one new record. Upserting \<open>{date: "2025-01-01", ph: 7}\<close> and then
  \<open>{date: "2025-01-01", level: 2}\<close> into the empty log gives the one record
  \<open>{date: "2025-01-01", ph: 7, level: 2}\<close>, the length being 1 after the first upsert
  and after the second.
\<close>

theorem upsertHistoryEntry_shallow_merge:
  "(i < length list \<and> get_prop (list ! i) ''date'' = get_prop payload ''date''
      \<and> (\<forall>j<i. get_prop (list ! j) ''date'' \<noteq> get_prop payload ''date'')
    \<longrightarrow> mset (upsertHistoryEntry getTime list payload)
        = mset (list[i := (\<lambda>k. case payload k of None \<Rightarrow> (list ! i) k | Some v \<Rightarrow> Some v)])
      \<and> length (upsertHistoryEntry getTime list payload) = length list)
   \<and> ((\<forall>e\<in>set list. get_prop e ''date'' \<noteq> get_prop payload ''date'')
    \<longrightarrow> mset (upsertHistoryEntry getTime list payload) = add_mset payload (mset list)
      \<and> length (upsertHistoryEntry getTime list payload) = length list + 1)
   \<and> upsertHistoryEntry getTime
        (upsertHistoryEntry getTime [] [''date'' \<mapsto> JStr ''2025-01-01'', ''ph'' \<mapsto> JNum 7])
        [''date'' \<mapsto> JStr ''2025-01-01'', ''level'' \<mapsto> JNum 2]
      = [[''date'' \<mapsto> JStr ''2025-01-01'', ''ph'' \<mapsto> JNum 7, ''level'' \<mapsto> JNum 2]]
   \<and> length (upsertHistoryEntry getTime [] [''date'' \<mapsto> JStr ''2025-01-01'', ''ph'' \<mapsto> JNum 7])
      = 1
   \<and> upsertHistoryEntry getTime
        [[''date'' \<mapsto> JStr ''2025-01-01'', ''ph'' \<mapsto> JNum 7, ''level'' \<mapsto> JNum 2]]
        [''date'' \<mapsto> JStr ''2025-01-01'', ''ph'' \<mapsto> JNull]
      = [[''date'' \<mapsto> JStr ''2025-01-01'', ''ph'' \<mapsto> JNull, ''level'' \<mapsto> JNum 2]]"
proof (intro conjI impI)
  assume a: "i < length list \<and> get_prop (list ! i) ''date'' = get_prop payload ''date''
      \<and> (\<forall>j<i. get_prop (list ! j) ''date'' \<noteq> get_prop payload ''date'')"
  then have idx: "findIndex (\<lambda>e. get_prop e ''date'' = get_prop payload ''date'') list = int i"
    by (intro findIndex_first) auto
  have sp: "spread (list ! i) payload
      = (\<lambda>k. case payload k of None \<Rightarrow> (list ! i) k | Some v \<Rightarrow> Some v)"
    by (rule ext) (simp add: spread_apply)
  show "mset (upsertHistoryEntry getTime list payload)
        = mset (list[i := (\<lambda>k. case payload k of None \<Rightarrow> (list ! i) k | Some v \<Rightarrow> Some v)])"
    by (simp add: upsertHistoryEntry_def upsert_in_place_def Let_def idx mset_Array_sort sp)
  show "length (upsertHistoryEntry getTime list payload) = length list"
    by (simp add: upsertHistoryEntry_def upsert_in_place_def Let_def idx length_Array_sort)
next
  assume a: "\<forall>e\<in>set list. get_prop e ''date'' \<noteq> get_prop payload ''date''"
  then have idx: "findIndex (\<lambda>e. get_prop e ''date'' = get_prop payload ''date'') list = - 1"
    by (intro findIndex_none) auto
  show "mset (upsertHistoryEntry getTime list payload) = add_mset payload (mset list)"
    by (simp add: upsertHistoryEntry_def upsert_in_place_def Let_def idx mset_Array_sort)
  show "length (upsertHistoryEntry getTime list payload) = length list + 1"
    by (simp add: upsertHistoryEntry_def upsert_in_place_def Let_def idx length_Array_sort)
next
  show "upsertHistoryEntry getTime
        (upsertHistoryEntry getTime [] [''date'' \<mapsto> JStr ''2025-01-01'', ''ph'' \<mapsto> JNum 7])
        [''date'' \<mapsto> JStr ''2025-01-01'', ''level'' \<mapsto> JNum 2]
      = [[''date'' \<mapsto> JStr ''2025-01-01'', ''ph'' \<mapsto> JNum 7, ''level'' \<mapsto> JNum 2]]"
    by (simp add: upsertHistoryEntry_def upsert_in_place_def Let_def Array_sort_def
        get_prop_def spread_def) (rule ext, simp add: map_add_def)
next
  show "length (upsertHistoryEntry getTime [] [''date'' \<mapsto> JStr ''2025-01-01'', ''ph'' \<mapsto> JNum 7])
      = 1"
    by (simp add: length_upsert)
next
  show "upsertHistoryEntry getTime
        [[''date'' \<mapsto> JStr ''2025-01-01'', ''ph'' \<mapsto> JNum 7, ''level'' \<mapsto> JNum 2]]
        [''date'' \<mapsto> JStr ''2025-01-01'', ''ph'' \<mapsto> JNull]
      = [[''date'' \<mapsto> JStr ''2025-01-01'', ''ph'' \<mapsto> JNull, ''level'' \<mapsto> JNum 2]]"
    by (simp add: upsertHistoryEntry_def upsert_in_place_def Let_def Array_sort_def
        get_prop_def spread_def) (rule ext, simp add: map_add_def)
qed

theorem upsertHistoryEntry_shallow_merge_witness:
  "mset (upsertHistoryEntry example_getTime [glucose_jan2, glucose_jan1] ph_jan1)
     = mset [glucose_jan2,
         (\<lambda>k. case ph_jan1 k of None \<Rightarrow> glucose_jan1 k | Some v \<Rightarrow> Some v)]
   \<and> length (upsertHistoryEntry example_getTime [glucose_jan2, glucose_jan1] ph_jan1) = 2
   \<and> mset (upsertHistoryEntry example_getTime [glucose_jan2] ph_jan1)
     = mset [ph_jan1, glucose_jan2]
   \<and> length (upsertHistoryEntry example_getTime [glucose_jan2] ph_jan1) = 2"
proof -
  have dates: "get_prop glucose_jan1 ''date'' = JStr ''2025-01-01''"
    "get_prop glucose_jan2 ''date'' = JStr ''2025-01-02''"
    "get_prop ph_jan1 ''date'' = JStr ''2025-01-01''"
    by (simp_all add: get_prop_def glucose_jan1_def glucose_jan2_def ph_jan1_def)
  show ?thesis
    using upsertHistoryEntry_shallow_merge
        [where getTime = example_getTime and list = "[glucose_jan2, glucose_jan1]"
           and payload = ph_jan1 and i = 1]
      upsertHistoryEntry_shallow_merge
        [where getTime = example_getTime and list = "[glucose_jan2]"
           and payload = ph_jan1 and i = 0]
    by (simp add: dates cong: option.case_cong)
qed

text \<open>
  C4, as amended. After any sequence of upserts that starts from the empty log, no two
  records of the log have the same date, and each upsert leaves the length unchanged
  (a record of that date exists) or adds exactly one. When every payload carries a valid
  timestamp, the log is sorted ascending by timestamp after every upsert; it is strictly
  ascending when the instants of its records are pairwise different, which two records
  of different dates need not be.
\<close>

theorem upsert_all_invariant:
  "distinct (map (\<lambda>e. get_prop e ''date'') (upsert_all getTime ps))
   \<and> length (upsertHistoryEntry getTime list p) =
       (if \<exists>e\<in>set list. get_prop e ''date'' = get_prop p ''date''
        then length list else length list + 1)
   \<and> ((\<forall>q\<in>set ps. has_instant getTime q) \<longrightarrow>
        sorted (map (instant getTime) (upsert_all getTime ps))
        \<and> (distinct (map (instant getTime) (upsert_all getTime ps)) \<longrightarrow>
             sorted_wrt (<) (map (instant getTime) (upsert_all getTime ps))))"
  using distinct_dates_upsert_all [of getTime ps] length_upsert [of getTime list p]
    sorted_upsert_all [of ps getTime]
  by (auto simp: strict_sorted_iff)

theorem upsert_all_invariant_witness:
  "map (\<lambda>e. get_prop e ''date'')
       (upsert_all example_getTime [glucose_jan2, glucose_jan1, ph_jan1])
     = [JStr ''2025-01-01'', JStr ''2025-01-02'']
   \<and> map (instant example_getTime)
       (upsert_all example_getTime [glucose_jan2, glucose_jan1, ph_jan1])
     = [1735767000000, 1735805700000]
   \<and> sorted_wrt (<) (map (instant example_getTime)
       (upsert_all example_getTime [glucose_jan2, glucose_jan1, ph_jan1]))
   \<and> length (upsertHistoryEntry example_getTime [glucose_jan2, glucose_jan1] ph_jan1) = 2"
  using upsert_all_invariant
      [where getTime = example_getTime and ps = "[glucose_jan2, glucose_jan1, ph_jan1]"
         and list = "[glucose_jan2, glucose_jan1]" and p = ph_jan1]
  by (simp add: upsert_all_def upsertHistoryEntry_def upsert_in_place_def Let_def
      Array_sort_def sorts_after_def byTimestamp_def example_getTime_def instant_def
      has_instant_def spread_apply get_prop_def glucose_jan1_def glucose_jan2_def ph_jan1_def)

text \<open>
  The claim C4 as stated, strictly ascending after any sequence of upserts, fails: two
  payloads of different dates with the same timestamp are both kept, side by side.
\<close>

theorem upsert_all_not_strictly_ascending:
  "upsert_all example_getTime [ph_jan1, glucose_jan2_same_instant]
     = [ph_jan1, glucose_jan2_same_instant]
   \<and> map (instant example_getTime)
       (upsert_all example_getTime [ph_jan1, glucose_jan2_same_instant])
     = [1735767000000, 1735767000000]
   \<and> \<not> sorted_wrt (<) (map (instant example_getTime)
       (upsert_all example_getTime [ph_jan1, glucose_jan2_same_instant]))"
  by (simp add: upsert_all_def upsertHistoryEntry_def upsert_in_place_def Let_def
      Array_sort_def sorts_after_def byTimestamp_def example_getTime_def instant_def
      get_prop_def ph_jan1_def glucose_jan2_same_instant_def)

section \<open>Properties of the calendar and statistics views\<close>

subsection \<open>The map from date to merged record\<close>














subsection \<open>The statistics series\<close>








section \<open>Properties of the sampler\<close>

subsection \<open>What the scans compute\<close>











subsection \<open>Every read is within the buffer\<close>

lemma roi_side_le:
  assumes "0 \<le> ratio" "ratio \<le> 1"
  shows "(n - nat \<lfloor>real n * ratio\<rfloor>) div 2 + nat \<lfloor>real n * ratio\<rfloor> \<le> n"
proof -
  have "real n * ratio \<le> real n" using assms by (simp add: mult_left_le)
  then have "\<lfloor>real n * ratio\<rfloor> \<le> int n" by (simp add: floor_le_iff) 
  then have "nat \<lfloor>real n * ratio\<rfloor> \<le> n" by simp
  then show ?thesis by simp
qed

lemma pixel_index_lt:
  fixes y x W H :: nat
  assumes "y < H" "x < W"
  shows "y * W + x < W * H"
proof -
  from assms(1) have "Suc y \<le> H" by simp
  then have "Suc y * W \<le> H * W" by (rule mult_le_mono1)
  with assms(2) show ?thesis by (simp add: mult.commute)
qed

lemma roi_offsets_in_range:
  assumes "length data = 4 * W * H" "0 \<le> ratio" "ratio \<le> 1"
  shows "\<forall>i\<in>set (roi_offsets W H ratio). i + 2 < length data"
proof
  fix i assume "i \<in> set (roi_offsets W H ratio)"
  then obtain y x where i: "i = (y * W + x) * 4"
    and y: "y < (H - nat \<lfloor>real H * ratio\<rfloor>) div 2 + nat \<lfloor>real H * ratio\<rfloor>"
    and x: "x < (W - nat \<lfloor>real W * ratio\<rfloor>) div 2 + nat \<lfloor>real W * ratio\<rfloor>"
    by (auto simp: roi_offsets_def Let_def)
  from y roi_side_le [OF assms(2,3), of H] have "y < H" by simp
  moreover from x roi_side_le [OF assms(2,3), of W] have "x < W" by simp
  ultimately have "y * W + x < W * H" by (rule pixel_index_lt)
  with i assms(1) show "i + 2 < length data" by simp
qed

lemma frame_offsets_in_range:
  assumes "length data = 4 * W * H"
  shows "\<forall>i\<in>set (frame_offsets W H). i + 2 < length data"
  using assms by (auto simp: frame_offsets_def)

subsection \<open>The example frame\<close>












subsection \<open>The fallback\<close>



end
